theory Spec2Isabelle
  imports Complex_Main
begin

section \<open>JavaScript primitives used by the cipher nodes\<close>

text \<open>
  Strings are modelled as lists of characters (\<^typ>\<open>string\<close>), one list element per
  character. The model covers ASCII text, the alphabet the program works on: a letter
  is one of A to Z or a to z, and \<open>toUpperCase\<close> is the ASCII case mapping. \<open>split('')\<close>
  and \<open>join('')\<close> convert between a string and the array of its one-character strings,
  so a \<open>split('').map(f).join('')\<close> chain is a \<^const>\<open>map\<close> over the character list.

  JavaScript numbers are modelled as mathematical integers and real numbers, without
  the rounding of floating-point arithmetic; \<open>undefined\<close> and \<open>NaN\<close> are \<^const>\<open>None\<close>
  where the code can produce them.
\<close>

text \<open>The remainder operator \<open>%\<close> on integers: the result takes the sign of the dividend.\<close>

definition js_rem :: "int \<Rightarrow> int \<Rightarrow> int" where
  "js_rem a b = sgn a * (\<bar>a\<bar> mod \<bar>b\<bar>)"

text \<open>
  \<open>char.charCodeAt(0)\<close> and \<open>String.fromCharCode(n)\<close>, which reduces its argument to a
  16-bit code unit. Every code the cipher nodes pass to it lies between 0 and 90.
\<close>

definition charCodeAt :: "char \<Rightarrow> int" where
  "charCodeAt c = of_char c"

definition fromCharCode :: "int \<Rightarrow> char" where
  "fromCharCode n = char_of (n mod 65536)"

text \<open>The regular expression test \<open>/[A-Z]/.test(char)\<close> on a one-character string.\<close>

definition test_AZ :: "char \<Rightarrow> bool" where
  "test_AZ c = (65 \<le> charCodeAt c \<and> charCodeAt c \<le> 90)"

definition is_lower :: "char \<Rightarrow> bool" where
  "is_lower c = (97 \<le> charCodeAt c \<and> charCodeAt c \<le> 122)"

text \<open>\<open>toUpperCase()\<close> on ASCII text: the letters a to z move to A to Z.\<close>

definition upper_char :: "char \<Rightarrow> char" where
  "upper_char c = (if is_lower c then fromCharCode (charCodeAt c - 32) else c)"

definition toUpperCase :: "string \<Rightarrow> string" where
  "toUpperCase s = map upper_char s"

text \<open>
  Array indexing \<open>xs[i]\<close> with an integer index: \<open>undefined\<close> outside the array.
\<close>

definition js_index :: "'a list \<Rightarrow> int \<Rightarrow> 'a option" where
  "js_index xs i = (if 0 \<le> i \<and> i < int (length xs) then Some (xs ! nat i) else None)"

section \<open>nodes.js: the cipher nodes\<close>

text \<open>
  The base class \<open>CipherNode\<close> carries the fields \<open>type\<close>, \<open>name\<close> and \<open>key\<close>; the
  subclasses \<open>ShiftNode\<close>, \<open>ReverseNode\<close> and \<open>MultiplyNode\<close> add no field. The key is a
  number, or \<open>undefined\<close> (\<^const>\<open>None\<close>) after a failed array lookup.
\<close>

record CipherNode =
  type :: string
  name :: string
  key :: "int option"

definition ShiftNode_new :: "int \<Rightarrow> CipherNode" where
  "ShiftNode_new k = \<lparr>type = ''shift'', name = ''Shift'', key = Some k\<rparr>"

definition ReverseNode_new :: CipherNode where
  "ReverseNode_new = \<lparr>type = ''reverse'', name = ''Reverse'', key = Some 0\<rparr>"

text \<open>\<open>ShiftNode.apply(input, key)\<close>.\<close>

definition shift_char :: "int \<Rightarrow> char \<Rightarrow> char" where
  "shift_char k char =
     (if \<not> test_AZ char then char
      else let code = charCodeAt char - 65;
               shifted = js_rem (code + k) 26
           in fromCharCode (shifted + 65))"

definition ShiftNode_apply :: "string \<Rightarrow> int \<Rightarrow> string" where
  "ShiftNode_apply input k = map (shift_char k) (toUpperCase input)"

text \<open>\<open>ReverseNode.apply(input)\<close>.\<close>

definition ReverseNode_apply :: "string \<Rightarrow> string" where
  "ReverseNode_apply input = rev input"

text \<open>
  \<open>MultiplyNode.apply(input, key)\<close>. The stored key can be \<open>undefined\<close> (see
  \<open>validateKey\<close>); then \<open>key * code\<close> is \<open>NaN\<close> and \<open>String.fromCharCode(NaN)\<close> is
  the character with code 0.
\<close>

definition multiply_char :: "int option \<Rightarrow> char \<Rightarrow> char" where
  "multiply_char k char =
     (if \<not> test_AZ char then char
      else let code = charCodeAt char - 65
           in case k of
                None \<Rightarrow> fromCharCode 0
              | Some m \<Rightarrow> fromCharCode (js_rem (m * code) 26 + 65))"

definition MultiplyNode_apply :: "string \<Rightarrow> int option \<Rightarrow> string" where
  "MultiplyNode_apply input k = map (multiply_char k) (toUpperCase input)"

text \<open>
  \<open>MultiplyNode.validateKey(key)\<close>, the constructor (\<open>this.key = key;
  this.validateKey(key)\<close>) and \<open>setKey\<close>, which only calls \<open>validateKey\<close>. The warning
  written to the console is not modelled.
\<close>

definition validKeys :: "int list" where
  "validKeys = [1, 3, 5, 7, 9, 11, 15, 17, 19, 21, 23, 25]"

definition MultiplyNode_validateKey :: "CipherNode \<Rightarrow> int \<Rightarrow> CipherNode" where
  "MultiplyNode_validateKey this k =
     (if js_rem k 26 \<notin> set validKeys
      then this\<lparr>key := js_index validKeys (js_rem k (int (length validKeys)))\<rparr>
      else this)"

definition MultiplyNode_new :: "int \<Rightarrow> CipherNode" where
  "MultiplyNode_new k =
     MultiplyNode_validateKey \<lparr>type = ''multiply'', name = ''Multiply'', key = Some k\<rparr> k"

definition MultiplyNode_setKey :: "CipherNode \<Rightarrow> int \<Rightarrow> CipherNode" where
  "MultiplyNode_setKey this k = MultiplyNode_validateKey this k"

subsection \<open>CipherPipeline\<close>

record CipherPipeline =
  nodes :: "CipherNode list"

text \<open>
  \<open>Array.prototype.splice(start, deleteCount)\<close> with integer arguments and no inserted
  items: a negative start counts from the end of the array, and the range is clamped to
  the array.
\<close>

definition splice :: "'a list \<Rightarrow> int \<Rightarrow> int \<Rightarrow> 'a list" where
  "splice xs start deleteCount =
     (let len = int (length xs);
          actualStart = (if start < 0 then max (len + start) 0 else min start len);
          actualDeleteCount = min (max deleteCount 0) (len - actualStart)
      in take (nat actualStart) xs @ drop (nat (actualStart + actualDeleteCount)) xs)"

definition addNode :: "CipherPipeline \<Rightarrow> CipherNode \<Rightarrow> CipherPipeline" where
  "addNode p node = p\<lparr>nodes := nodes p @ [node]\<rparr>"

definition removeNode :: "CipherPipeline \<Rightarrow> int \<Rightarrow> CipherPipeline" where
  "removeNode p index = p\<lparr>nodes := splice (nodes p) index 1\<rparr>"

definition isEmpty :: "CipherPipeline \<Rightarrow> bool" where
  "isEmpty p = (length (nodes p) = 0)"

definition pipeline_length :: "CipherPipeline \<Rightarrow> int" where
  "pipeline_length p = int (length (nodes p))"

text \<open>
  game.js, \<open>removeNodeByIndex(index)\<close>: the caller's guard around \<open>removeNode\<close> (the
  screen updates that follow are not modelled).
\<close>

definition removeNodeByIndex :: "CipherPipeline \<Rightarrow> int \<Rightarrow> CipherPipeline" where
  "removeNodeByIndex p index =
     (if index \<ge> 0 \<and> index < pipeline_length p then removeNode p index else p)"

subsection \<open>Geometry utilities\<close>

text \<open>A point \<open>{x, y}\<close>; coordinates are real numbers.\<close>

record point =
  px :: real
  py :: real

definition distance :: "point \<Rightarrow> point \<Rightarrow> real" where
  "distance p1 p2 = sqrt ((px p2 - px p1) ^ 2 + (py p2 - py p1) ^ 2)"

text \<open>
  \<open>polygonArea\<close>: the loop \<open>for (i = 0; i < vertices.length; i++)\<close> is a fold over the
  indices; every index read is below the length.
\<close>

definition polygonArea :: "point list \<Rightarrow> real" where
  "polygonArea vs =
     (if length vs < 3 then 0
      else \<bar>fold (\<lambda>i area.
                   let j = (i + 1) mod length vs
                   in area + px (vs ! i) * py (vs ! j) - px (vs ! j) * py (vs ! i))
                 [0..<length vs] 0 / 2\<bar>)"

text \<open>
  \<open>isConvex\<close>: \<open>sign\<close> is \<open>null\<close> (\<^const>\<open>None\<close>) until the first non-zero cross product;
  the loop returns false at the first cross product of the other sign.
\<close>

fun isConvex_loop :: "point list \<Rightarrow> nat list \<Rightarrow> bool option \<Rightarrow> bool" where
  "isConvex_loop vs [] sign = True"
| "isConvex_loop vs (i # rest) sign =
     (let p1 = vs ! i;
          p2 = vs ! ((i + 1) mod length vs);
          p3 = vs ! ((i + 2) mod length vs);
          cross = (px p2 - px p1) * (py p3 - py p2) - (py p2 - py p1) * (px p3 - px p2)
      in if cross \<noteq> 0
         then (case sign of
                 None \<Rightarrow> isConvex_loop vs rest (Some (cross > 0))
               | Some s \<Rightarrow> if (cross > 0) \<noteq> s then False else isConvex_loop vs rest sign)
         else isConvex_loop vs rest sign)"

definition isConvex :: "point list \<Rightarrow> bool" where
  "isConvex vs = (if length vs < 3 then False else isConvex_loop vs [0..<length vs] None)"

definition getSideLengths :: "point list \<Rightarrow> real list" where
  "getSideLengths vs =
     map (\<lambda>i. distance (vs ! i) (vs ! ((i + 1) mod length vs))) [0..<length vs]"

text \<open>\<open>calculateSideVariance\<close>: the two \<open>reduce\<close> calls are left folds.\<close>

definition calculateSideVariance :: "point list \<Rightarrow> real" where
  "calculateSideVariance vs =
     (let lengths = getSideLengths vs
      in if length lengths = 0 then 0
         else let mean = foldl (\<lambda>a b. a + b) 0 lengths / real (length lengths);
                  variance = foldl (\<lambda>sum len. sum + (len - mean) ^ 2) 0 lengths
                               / real (length lengths)
              in sqrt variance)"

record validation =
  valid :: bool
  error :: string
  sides :: nat

text \<open>
  \<open>validatePolygon\<close>: the nested loops return at the first pair \<open>i < j\<close> of vertices
  closer than \<open>minDist\<close>.
\<close>

definition minDist :: real where
  "minDist = 15"

definition too_close :: "point list \<Rightarrow> bool" where
  "too_close vs =
     list_ex (\<lambda>i. list_ex (\<lambda>j. distance (vs ! i) (vs ! j) < minDist) [i + 1..<length vs])
       [0..<length vs]"

definition validatePolygon :: "point list \<Rightarrow> validation" where
  "validatePolygon vs =
     (if length vs < 3
      then \<lparr>valid = False, error = ''Need at least 3 vertices'', sides = 0\<rparr>
      else if length vs > 12
      then \<lparr>valid = False, error = ''Too many vertices (max 12)'', sides = 0\<rparr>
      else if too_close vs
      then \<lparr>valid = False, error = ''Vertices too close together'', sides = 0\<rparr>
      else if polygonArea vs < 100
      then \<lparr>valid = False, error = ''Polygon too small'', sides = 0\<rparr>
      else \<lparr>valid = True, error = [], sides = length vs\<rparr>)"

subsection \<open>PolygonNode\<close>

record PolygonNode = CipherNode +
  vertices :: "point list"
  sideLengths :: "real list"
  numSides :: nat
  convex :: bool
  sideVariance :: real
  area :: real

text \<open>The constructor: \<open>numSides % 26 || 3\<close> is 3 when the remainder is 0.\<close>

definition PolygonNode_new :: "point list \<Rightarrow> PolygonNode" where
  "PolygonNode_new vs =
     \<lparr>type = ''polygon'', name = ''Polygon Cipher'',
      key = Some (if int (length vs) mod 26 = 0 then 3 else int (length vs) mod 26),
      vertices = vs,
      sideLengths = getSideLengths vs,
      numSides = length vs,
      convex = isConvex vs,
      sideVariance = calculateSideVariance vs,
      area = polygonArea vs\<rparr>"

text \<open>
  \<open>PolygonNode.apply(input)\<close>. Both stages are written out in the method itself; the
  local \<open>multiplyKey\<close> is computed and never used, so it is left out.
\<close>

definition PolygonNode_apply :: "PolygonNode \<Rightarrow> string \<Rightarrow> string" where
  "PolygonNode_apply this input =
     (let shiftAmount = (if int (numSides this) mod 26 = 0 then 3 else int (numSides this) mod 26);
          result = map (\<lambda>char.
                      if \<not> test_AZ char then char
                      else let code = charCodeAt char - 65;
                               shifted = js_rem (code + shiftAmount) 26
                           in fromCharCode (shifted + 65))
                     (toUpperCase input)
      in if convex this
         then let k = js_index validKeys
                        (js_rem \<lfloor>sideVariance this * 2\<rfloor> (int (length validKeys)))
              in map (\<lambda>char.
                      if \<not> test_AZ char then char
                      else let code = charCodeAt char - 65
                           in case k of
                                None \<Rightarrow> fromCharCode 0
                              | Some m \<Rightarrow> fromCharCode (js_rem (m * code) 26 + 65))
                     result
         else result)"

section \<open>Character frequency tables\<close>

text \<open>
  Both attack.js and evaluator.js count characters in an object used as a dictionary:
  \<open>frequencies[char] = (frequencies[char] || 0) + 1\<close>. The dictionary is an association
  list in insertion order; \<open>Object.values\<close> lists its counts. (JavaScript lists keys
  that look like array indices, the digit characters, before the others. The tables are
  only summed over or searched for their maximum, which does not depend on the order.)
\<close>

fun bump :: "(char \<times> nat) list \<Rightarrow> char \<Rightarrow> (char \<times> nat) list" where
  "bump [] c = [(c, 1)]"
| "bump ((d, n) # fs) c = (if d = c then (d, n + 1) # fs else (d, n) # bump fs c)"

definition count_frequencies :: "string \<Rightarrow> (char \<times> nat) list" where
  "count_frequencies text = foldl bump [] text"

section \<open>attack.js\<close>

text \<open>
  The attack results carry a penalty and display strings; the strings are not modelled.
  \<open>Math.round(x)\<close> is \<open>\<lfloor>x + 1/2\<rfloor>\<close>.
\<close>

record attack_result =
  penalty :: int

record brute_force_result = attack_result +
  combinations :: nat

definition Math_round :: "real \<Rightarrow> int" where
  "Math_round r = \<lfloor>r + 1 / 2\<rfloor>"

text \<open>
  \<open>frequencyAnalysisAttack\<close>: \<open>freqValues\<close> is sorted in descending order and its first
  element read; the list has an element whenever \<open>letters\<close> has one.
\<close>

definition frequencyAnalysisAttack :: "string \<Rightarrow> attack_result" where
  "frequencyAnalysisAttack ciphertext =
     (let letters = filter test_AZ ciphertext;
          frequencies = count_frequencies letters
      in if length letters = 0 then \<lparr>penalty = 0\<rparr>
         else let freqValues = rev (sort (map (\<lambda>(c, f). real f / real (length letters)) frequencies));
                  topFreq = (case freqValues of [] \<Rightarrow> 0 | t # _ \<Rightarrow> t);
                  domination = max 0 (topFreq - 15 / 100);
                  pen = min 30 (domination * 100)
              in \<lparr>penalty = Math_round pen\<rparr>)"

text \<open>\<open>bruteForceAttack\<close>: the \<open>switch\<close> on \<open>node.type\<close> and the time buckets.\<close>

definition bruteForce_keySpace :: "CipherNode \<Rightarrow> nat" where
  "bruteForce_keySpace node =
     (if type node = ''shift'' then 26
      else if type node = ''multiply'' then 12
      else if type node = ''reverse'' then 2
      else 2)"

definition testRate :: real where
  "testRate = 1000000"

definition bruteForceAttack :: "CipherPipeline \<Rightarrow> brute_force_result" where
  "bruteForceAttack pipeline =
     (let totalCombinations =
            fold (\<lambda>node total. total * bruteForce_keySpace node) (nodes pipeline) 1;
          secondsNeeded = real totalCombinations / testRate;
          minutesNeeded = secondsNeeded / 60;
          hoursNeeded = minutesNeeded / 60;
          pen = (if secondsNeeded < 1 then 40
                 else if secondsNeeded < 60 then 30
                 else if minutesNeeded < 60 then 15
                 else if hoursNeeded < 24 then 5
                 else 0)
      in \<lparr>penalty = pen, combinations = totalCombinations\<rparr>)"

record attack_report =
  attacks :: "(string \<times> int) list"
  totalPenalty :: int
  showAnimation :: bool

text \<open>
  \<open>runAttacks\<close>: \<open>showAnimation\<close> tests the local sum before the cap, \<open>totalPenalty\<close> in the
  result is the capped value.
\<close>

definition runAttacks :: "string \<Rightarrow> string \<Rightarrow> CipherPipeline \<Rightarrow> attack_report" where
  "runAttacks plaintext ciphertext pipeline =
     (let freqAttack = frequencyAnalysisAttack ciphertext;
          total1 = 0 + penalty freqAttack;
          bfAttack = bruteForceAttack pipeline;
          total2 = total1 + penalty bfAttack
      in \<lparr>attacks = [(''Frequency Analysis'', penalty freqAttack),
                      (''Brute Force Estimation'', penalty bfAttack)],
          totalPenalty = min 50 total2,
          showAnimation = (total2 > 0)\<rparr>)"

section \<open>evaluator.js\<close>

text \<open>
  The file declares each function twice; a later function declaration replaces an
  earlier one of the same name, so the second set (base score 60) is the code that runs.

  A number that can be \<open>NaN\<close> is a \<^typ>\<open>real option\<close> with \<^const>\<open>None\<close> for \<open>NaN\<close>:
  arithmetic, \<open>Math.min\<close> and \<open>Math.max\<close> return \<open>NaN\<close> when an argument is \<open>NaN\<close>, and a
  comparison with \<open>NaN\<close> is false.
\<close>

type_synonym number = "real option"

definition js_plus :: "number \<Rightarrow> number \<Rightarrow> number" where
  "js_plus a b = (case (a, b) of (Some x, Some y) \<Rightarrow> Some (x + y) | _ \<Rightarrow> None)"

definition js_times :: "number \<Rightarrow> number \<Rightarrow> number" where
  "js_times a b = (case (a, b) of (Some x, Some y) \<Rightarrow> Some (x * y) | _ \<Rightarrow> None)"

definition Math_min :: "number \<Rightarrow> number \<Rightarrow> number" where
  "Math_min a b = (case (a, b) of (Some x, Some y) \<Rightarrow> Some (min x y) | _ \<Rightarrow> None)"

definition Math_max :: "number \<Rightarrow> number \<Rightarrow> number" where
  "Math_max a b = (case (a, b) of (Some x, Some y) \<Rightarrow> Some (max x y) | _ \<Rightarrow> None)"

definition js_less :: "number \<Rightarrow> number \<Rightarrow> bool" where
  "js_less a b = (case (a, b) of (Some x, Some y) \<Rightarrow> x < y | _ \<Rightarrow> False)"

text \<open>
  \<open>calculateEntropy\<close>: \<open>len\<close> is positive whenever the table has an entry, so every
  division is defined.
\<close>

definition calculateEntropy :: "string \<Rightarrow> real" where
  "calculateEntropy text =
     (let frequencies = count_frequencies text;
          len = real (length text)
      in foldl (\<lambda>entropy (c, f). let p = real f / len in entropy - p * log 2 p) 0 frequencies)"

text \<open>
  \<open>calculateDiffusion\<close>: for two empty strings the result is \<open>0 / 0\<close>, which is \<open>NaN\<close>.
\<close>

definition calculateDiffusion :: "string \<Rightarrow> string \<Rightarrow> number" where
  "calculateDiffusion plaintext ciphertext =
     (if length plaintext \<noteq> length ciphertext then Some 50
      else let changes = fold (\<lambda>i changes. if plaintext ! i \<noteq> ciphertext ! i
                                              then changes + 1 else changes)
                           [0..<length plaintext] (0::nat)
           in if length plaintext = 0 then None
              else Some (real changes / real (length plaintext) * 100))"

definition analyzeFrequencySkew :: "string \<Rightarrow> real" where
  "analyzeFrequencySkew text =
     (let frequencies = count_frequencies (filter test_AZ text);
          freqArray = map (\<lambda>(c, f). real f) frequencies
      in if length freqArray = 0 then 100
         else let avgFreq = foldl (\<lambda>a b. a + b) 0 freqArray / real (length freqArray);
                  variance = fold (\<lambda>freq variance. variance + (freq - avgFreq) ^ 2) freqArray 0
                               / real (length freqArray);
                  stdDev = sqrt variance
              in min 100 (stdDev / avgFreq * 100))"

definition isSimpleReversal :: "string \<Rightarrow> string \<Rightarrow> bool" where
  "isSimpleReversal plaintext ciphertext = (rev plaintext = ciphertext)"

definition isIdentical :: "string \<Rightarrow> string \<Rightarrow> bool" where
  "isIdentical plaintext ciphertext = (plaintext = ciphertext)"

definition estimateKeySpace :: "CipherPipeline \<Rightarrow> real" where
  "estimateKeySpace pipeline =
     fold (\<lambda>node bits.
             if type node = ''shift'' then bits + log 2 26
             else if type node = ''multiply'' then bits + log 2 12
             else if type node = ''reverse'' then bits + 1
             else bits + 1)
       (nodes pipeline) 0"

record breakdown =
  base :: number
  entropy :: number
  diffusion :: number
  keySpace :: number
  penalties :: number
  final :: number

text \<open>
  One penalty step of \<open>evaluateCipher\<close>: \<open>if (cond) { breakdown.penalties -= n; score -= n
  }\<close>, on the pair of the two running values.
\<close>

definition penalise :: "bool \<Rightarrow> real \<Rightarrow> number \<times> number \<Rightarrow> number \<times> number" where
  "penalise cond n st =
     (if cond then (js_plus (fst st) (Some (- n)), js_plus (snd st) (Some (- n))) else st)"

definition evaluateCipher :: "string \<Rightarrow> string \<Rightarrow> CipherPipeline \<Rightarrow> breakdown" where
  "evaluateCipher plaintext ciphertext pipeline =
     (let score0 = Some 60;
          ciphertextEntropy = calculateEntropy ciphertext;
          plaintextEntropy = calculateEntropy plaintext;
          entropyDelta = max 0 (ciphertextEntropy - plaintextEntropy);
          entropyBoost = Some (min 20 (entropyDelta * 8));
          score1 = js_plus score0 entropyBoost;
          diffusionPct = calculateDiffusion plaintext ciphertext;
          diffusionScore = Math_min (Some 12) (js_times diffusionPct (Some (12 / 100)));
          score2 = js_plus score1 diffusionScore;
          keySpaceBits = estimateKeySpace pipeline;
          keySpaceScore = Some (min 8 keySpaceBits);
          score3 = js_plus score2 keySpaceScore;
          st1 = penalise (isIdentical plaintext ciphertext) 25 (Some 0, score3);
          st2 = penalise (isSimpleReversal plaintext ciphertext) 15 st1;
          st3 = penalise (js_less diffusionPct (Some 30)) 10 st2;
          freqSkew = analyzeFrequencySkew ciphertext;
          st4 = penalise (freqSkew < 20) 5 st3;
          st5 = penalise (isEmpty pipeline) 40 st4
      in \<lparr>base = Some 60,
          entropy = entropyBoost,
          diffusion = diffusionScore,
          keySpace = keySpaceScore,
          penalties = fst st5,
          final = Math_max (Some 0) (Math_min (Some 100) (snd st5))\<rparr>)"

section \<open>The formulas of the specification\<close>

text \<open>
  The per-node key multiplicity as the specification words it: Shift 26, Multiply 12,
  Reverse 2, any other node type 2.
\<close>

definition spec_multiplicity :: "CipherNode \<Rightarrow> nat" where
  "spec_multiplicity node =
     (if type node = ''shift'' then 26
      else if type node = ''multiply'' then 12
      else if type node = ''reverse'' then 2
      else 2)"

definition spec_totalCombinations :: "CipherPipeline \<Rightarrow> nat" where
  "spec_totalCombinations pipeline = prod_list (map spec_multiplicity (nodes pipeline))"

text \<open>The penalty by time bucket, with the time to exhaust the key space in seconds.\<close>

definition spec_bruteForce_penalty :: "real \<Rightarrow> int" where
  "spec_bruteForce_penalty seconds =
     (if seconds < 1 then 40
      else if seconds < 60 then 30
      else if seconds < 60 * 60 then 15
      else if seconds < 24 * 60 * 60 then 5
      else 0)"

text \<open>
  Shannon entropy in bits of the character distribution of the whole string: each
  character \<open>c\<close> of the string has probability \<open>count c / length\<close>.
\<close>

definition shannon_entropy :: "string \<Rightarrow> real" where
  "shannon_entropy text =
     - (\<Sum>c \<in> set text.
          (real (count_list text c) / real (length text))
            * log 2 (real (count_list text c) / real (length text)))"

text \<open>
  The percentage of same-index characters that differ, fixed at 50 when the lengths
  differ.
\<close>

definition pctChanged :: "string \<Rightarrow> string \<Rightarrow> real" where
  "pctChanged plaintext ciphertext =
     (if length plaintext \<noteq> length ciphertext then 50
      else real (card {i. i < length plaintext \<and> plaintext ! i \<noteq> ciphertext ! i})
             / real (length plaintext) * 100)"

definition spec_entropy :: "string \<Rightarrow> string \<Rightarrow> real" where
  "spec_entropy plaintext ciphertext =
     min 20 (max 0 (shannon_entropy ciphertext - shannon_entropy plaintext) * 8)"

definition spec_diffusion :: "string \<Rightarrow> string \<Rightarrow> real" where
  "spec_diffusion plaintext ciphertext = min 12 (pctChanged plaintext ciphertext * (12 / 100))"

definition spec_keySpace :: "CipherPipeline \<Rightarrow> real" where
  "spec_keySpace pipeline =
     min 8 (\<Sum>node \<leftarrow> nodes pipeline. log 2 (real (spec_multiplicity node)))"

definition spec_penalties :: "string \<Rightarrow> string \<Rightarrow> CipherPipeline \<Rightarrow> real" where
  "spec_penalties plaintext ciphertext pipeline =
     (if ciphertext = plaintext then - 25 else 0)
     + (if ciphertext = rev plaintext then - 15 else 0)
     + (if pctChanged plaintext ciphertext < 30 then - 10 else 0)
     + (if analyzeFrequencySkew ciphertext < 20 then - 5 else 0)
     + (if nodes pipeline = [] then - 40 else 0)"

definition spec_final :: "string \<Rightarrow> string \<Rightarrow> CipherPipeline \<Rightarrow> real" where
  "spec_final plaintext ciphertext pipeline =
     max 0 (min 100 (60 + spec_entropy plaintext ciphertext + spec_diffusion plaintext ciphertext
                       + spec_keySpace pipeline + spec_penalties plaintext ciphertext pipeline))"

section \<open>Example inputs\<close>

definition example_rectangle :: "point list" where
  "example_rectangle =
     [\<lparr>px = 0, py = 0\<rparr>, \<lparr>px = 60, py = 0\<rparr>, \<lparr>px = 60, py = 20\<rparr>, \<lparr>px = 0, py = 20\<rparr>]"

definition example_square :: "point list" where
  "example_square =
     [\<lparr>px = 0, py = 0\<rparr>, \<lparr>px = 10, py = 0\<rparr>, \<lparr>px = 10, py = 10\<rparr>, \<lparr>px = 0, py = 10\<rparr>]"

definition example_triangle :: "point list" where
  "example_triangle = [\<lparr>px = 0, py = 0\<rparr>, \<lparr>px = 40, py = 0\<rparr>, \<lparr>px = 20, py = 5\<rparr>]"

section \<open>Facts about characters and the letter transformations\<close>

lemma charCodeAt_fromCharCode: "0 \<le> n \<Longrightarrow> n < 256 \<Longrightarrow> charCodeAt (fromCharCode n) = n"
  by (simp add: charCodeAt_def fromCharCode_def)

lemma js_rem_bounds: "0 < b \<Longrightarrow> - b < js_rem a b \<and> js_rem a b < b"
  unfolding js_rem_def sgn_if 
  by (auto simp: abs_if; smt (verit) pos_mod_bound pos_mod_sign)

lemma js_rem_nonneg: "0 \<le> a \<Longrightarrow> 0 < b \<Longrightarrow> js_rem a b = a mod b"
  unfolding js_rem_def sgn_if by auto

lemma upper_char_lower: "is_lower c \<Longrightarrow> charCodeAt (upper_char c) = charCodeAt c - 32"
  by (simp add: upper_char_def is_lower_def charCodeAt_fromCharCode)

lemma upper_char_not_lower: "\<not> is_lower (upper_char c)"
proof (cases "is_lower c")
  case True
  then show ?thesis using upper_char_lower [OF True] by (simp add: is_lower_def)
next
  case False
  then show ?thesis by (simp add: upper_char_def)
qed

lemma upper_char_id: "\<not> is_lower c \<Longrightarrow> upper_char c = c"
  by (simp add: upper_char_def)

lemma toUpperCase_not_lower: "c \<in> set (toUpperCase s) \<Longrightarrow> \<not> is_lower c"
  by (auto simp: toUpperCase_def upper_char_not_lower)

lemma toUpperCase_id: "\<forall>c\<in>set s. \<not> is_lower c \<Longrightarrow> toUpperCase s = s"
  by (simp add: toUpperCase_def upper_char_id map_idI)

lemma toUpperCase_idem: "toUpperCase (toUpperCase s) = toUpperCase s"
  by (rule toUpperCase_id) (simp add: toUpperCase_not_lower)

lemma letter_code_range:
  assumes "- 26 < r" "r < 26"
  shows "charCodeAt (fromCharCode (r + 65)) = r + 65"
  using assms by (intro charCodeAt_fromCharCode) auto

lemma shift_char_code:
  "test_AZ c \<Longrightarrow> charCodeAt (shift_char k c) = js_rem (charCodeAt c - 65 + k) 26 + 65"
  using js_rem_bounds [of 26 "charCodeAt c - 65 + k"]
  by (simp add: shift_char_def Let_def letter_code_range)

lemma shift_char_not_lower: "\<not> is_lower c \<Longrightarrow> \<not> is_lower (shift_char k c)"
proof (cases "test_AZ c")
  case True
  then show ?thesis
    using shift_char_code [OF True, of k] js_rem_bounds [of 26 "charCodeAt c - 65 + k"]
    by (simp add: is_lower_def)
next
  case False
  then show "\<not> is_lower c \<Longrightarrow> ?thesis" by (simp add: shift_char_def)
qed

lemma shift_char_nonneg:
  assumes "0 \<le> k" "test_AZ c"
  shows "test_AZ (shift_char k c)"
    and "charCodeAt (shift_char k c) - 65 = (charCodeAt c - 65 + k) mod 26"
proof -
  have nn: "0 \<le> charCodeAt c - 65 + k" using assms by (simp add: test_AZ_def)
  have eq: "charCodeAt (shift_char k c) = (charCodeAt c - 65 + k) mod 26 + 65"
    using shift_char_code [OF assms(2), of k] js_rem_nonneg [OF nn, of 26] by simp
  show "charCodeAt (shift_char k c) - 65 = (charCodeAt c - 65 + k) mod 26"
    using eq by simp
  show "test_AZ (shift_char k c)"
    using eq pos_mod_bound [of 26 "charCodeAt c - 65 + k"] pos_mod_sign [of 26 "charCodeAt c - 65 + k"]
    by (simp add: test_AZ_def)
qed

lemma multiply_char_code:
  "test_AZ c \<Longrightarrow> charCodeAt (multiply_char (Some m) c) = js_rem (m * (charCodeAt c - 65)) 26 + 65"
  using js_rem_bounds [of 26 "m * (charCodeAt c - 65)"]
  by (simp add: multiply_char_def Let_def letter_code_range)

lemma multiply_char_None: "test_AZ c \<Longrightarrow> charCodeAt (multiply_char None c) = 0"
  by (simp add: multiply_char_def charCodeAt_fromCharCode)

lemma multiply_char_not_lower: "\<not> is_lower c \<Longrightarrow> \<not> is_lower (multiply_char mk c)"
proof (cases "test_AZ c")
  case True
  show ?thesis
  proof (cases mk)
    case None
    then show ?thesis using multiply_char_None [OF True] by (simp add: is_lower_def)
  next
    case (Some m)
    then show ?thesis
      using multiply_char_code [OF True, of m] js_rem_bounds [of 26 "m * (charCodeAt c - 65)"]
      by (simp add: is_lower_def)
  qed
next
  case False
  then show "\<not> is_lower c \<Longrightarrow> ?thesis" by (simp add: multiply_char_def)
qed

lemma multiply_char_nonneg:
  assumes "0 \<le> m" "test_AZ c"
  shows "test_AZ (multiply_char (Some m) c)"
    and "charCodeAt (multiply_char (Some m) c) - 65 = (m * (charCodeAt c - 65)) mod 26"
proof -
  have nn: "0 \<le> m * (charCodeAt c - 65)" using assms by (simp add: test_AZ_def)
  have eq: "charCodeAt (multiply_char (Some m) c) = (m * (charCodeAt c - 65)) mod 26 + 65"
    using multiply_char_code [OF assms(2), of m] js_rem_nonneg [OF nn, of 26] by simp
  show "charCodeAt (multiply_char (Some m) c) - 65 = (m * (charCodeAt c - 65)) mod 26"
    using eq by simp
  show "test_AZ (multiply_char (Some m) c)"
    using eq pos_mod_bound [of 26 "m * (charCodeAt c - 65)"] pos_mod_sign [of 26 "m * (charCodeAt c - 65)"]
    by (simp add: test_AZ_def)
qed

lemma upper_char_lower_AZ: "is_lower c \<Longrightarrow> test_AZ (upper_char c)"
  using upper_char_lower [of c] by (simp add: test_AZ_def is_lower_def)

lemma foldl_squares_nonneg: "0 \<le> a \<Longrightarrow> 0 \<le> foldl (\<lambda>sum len. sum + (len - m) ^ 2) (a::real) xs"
  by (induction xs arbitrary: a) simp_all

lemma calculateSideVariance_nonneg: "0 \<le> calculateSideVariance vs"
  by (simp add: calculateSideVariance_def Let_def foldl_squares_nonneg)

lemma PolygonNode_apply_chars:
  "PolygonNode_apply this input =
     (let shiftAmount = (if int (numSides this) mod 26 = 0 then 3 else int (numSides this) mod 26);
          result = map (shift_char shiftAmount) (toUpperCase input)
      in if convex this
         then map (multiply_char (js_index validKeys (js_rem \<lfloor>sideVariance this * 2\<rfloor> 12))) result
         else result)"
  by (simp add: PolygonNode_apply_def shift_char_def [abs_def] multiply_char_def [abs_def]
      validKeys_def Let_def)

lemma validKeys_index: "0 \<le> r \<Longrightarrow> js_index validKeys (js_rem r 12) = Some (validKeys ! (nat r mod 12))"
proof -
  assume r: "0 \<le> r"
  have "js_rem r 12 = r mod 12" using r by (simp add: js_rem_nonneg)
  moreover have "0 \<le> r mod 12" "r mod 12 < 12" by simp_all
  moreover have "nat (r mod 12) = nat r mod 12" using r by (simp add: nat_mod_distrib)
  ultimately show ?thesis by (simp add: js_index_def validKeys_def)
qed

lemma validKeys_nth_member: "i < 12 \<Longrightarrow> validKeys ! i \<in> set validKeys"
  by (rule nth_mem) (simp add: validKeys_def)

lemma validKeys_nonneg: "v \<in> set validKeys \<Longrightarrow> 0 \<le> v"
  by (auto simp: validKeys_def)

section \<open>The cipher nodes\<close>

subsection \<open>Reverse is an involution\<close>

text \<open>
  Claim C8. For every input string, applying \<open>Reverse.apply\<close> twice returns the original
  string exactly.
\<close>

theorem ReverseNode_apply_involution:
  "ReverseNode_apply (ReverseNode_apply input) = input"
  by (simp add: ReverseNode_apply_def)

lemma upt_0_4: "[0..<4] = [0, 1, 2, 3]"
  by (simp add: upt_rec)

lemma sqrt_400: "sqrt 400 = 20"
  by (rule real_sqrt_unique) simp_all

lemma sqrt_3600: "sqrt 3600 = 60"
  by (rule real_sqrt_unique) simp_all

lemma example_rectangle_convex: "isConvex example_rectangle"
  by (simp add: isConvex_def example_rectangle_def upt_0_4 Let_def)

lemma example_rectangle_variance: "calculateSideVariance example_rectangle = 20"
  by (simp add: calculateSideVariance_def getSideLengths_def example_rectangle_def upt_0_4
      distance_def sqrt_400 sqrt_3600 Let_def)

subsection \<open>The two stages of the polygon cipher\<close>

text \<open>
  Claim C1. For every vertex list, \<open>PolygonNode.apply(text)\<close> first applies a Shift with
  key \<open>numSides mod 26\<close> (3 if that is 0) to the uppercased input and then, exactly when
  the node's \<open>convex\<close> field is true, a Multiply with key
  \<open>validKeys[floor(sideVariance * 2) mod 12]\<close>; a concave polygon applies the Shift only.
  The method writes both stages out itself; the theorem states that they are the
  \<open>apply\<close> methods of \<open>ShiftNode\<close> and \<open>MultiplyNode\<close>.
\<close>

theorem PolygonNode_apply_stages:
  "PolygonNode_apply (PolygonNode_new vs) text =
     (let shiftKey = (if int (length vs) mod 26 = 0 then 3 else int (length vs) mod 26);
          shifted = ShiftNode_apply text shiftKey
      in if convex (PolygonNode_new vs)
         then MultiplyNode_apply shifted
                (Some (validKeys ! (nat \<lfloor>sideVariance (PolygonNode_new vs) * 2\<rfloor> mod 12)))
         else shifted)"
proof -
  define k where "k = (if int (length vs) mod 26 = 0 then 3 else int (length vs) mod 26)"
  define shifted where "shifted = ShiftNode_apply text k"
  have nolower: "\<forall>c\<in>set shifted. \<not> is_lower c"
    using shift_char_not_lower toUpperCase_not_lower
    by (auto simp: shifted_def ShiftNode_apply_def)
  have up: "toUpperCase shifted = shifted"
    by (rule toUpperCase_id [OF nolower])
  have sv: "0 \<le> \<lfloor>sideVariance (PolygonNode_new vs) * 2\<rfloor>"
    using calculateSideVariance_nonneg [of vs] by (simp add: PolygonNode_new_def)
  show ?thesis
    unfolding PolygonNode_apply_chars Let_def
    using up validKeys_index [OF sv]
    by (simp add: PolygonNode_new_def MultiplyNode_apply_def ShiftNode_apply_def shifted_def k_def)
qed

lemma ShiftNode_apply_Hi: "ShiftNode_apply ''Hi!'' 4 = ''LM!''"
  by code_simp

lemma MultiplyNode_apply_LM: "MultiplyNode_apply ''LM!'' (Some 9) = ''VE!''"
  by code_simp

theorem PolygonNode_apply_stages_witness:
  "convex (PolygonNode_new example_rectangle) \<and>
   PolygonNode_apply (PolygonNode_new example_rectangle) ''Hi!'' = ''VE!'' \<and>
   \<not> convex (PolygonNode_new []) \<and>
   PolygonNode_apply (PolygonNode_new []) ''Hi!'' = ''KL!''"
proof -
  have c: "convex (PolygonNode_new example_rectangle)"
    using example_rectangle_convex by (simp add: PolygonNode_new_def)
  have v: "sideVariance (PolygonNode_new example_rectangle) = 20"
    using example_rectangle_variance by (simp add: PolygonNode_new_def)
  have n: "length example_rectangle = 4"
    by (simp add: example_rectangle_def)
  have k: "validKeys ! 4 = 9"
    by (simp add: validKeys_def)
  have 1: "PolygonNode_apply (PolygonNode_new example_rectangle) ''Hi!'' = ''VE!''"
    using PolygonNode_apply_stages [of example_rectangle "''Hi!''"] c
    by (simp add: v n k ShiftNode_apply_Hi MultiplyNode_apply_LM)
  have e: "\<not> convex (PolygonNode_new [])"
    by (simp add: PolygonNode_new_def isConvex_def)
  have s: "ShiftNode_apply ''Hi!'' 3 = ''KL!''"
    by code_simp
  have 2: "PolygonNode_apply (PolygonNode_new []) ''Hi!'' = ''KL!''"
    using PolygonNode_apply_stages [of "[]" "''Hi!''"] e by (simp add: s)
  show ?thesis using c 1 e 2 by simp
qed

subsection \<open>Shift with a negative key\<close>

text \<open>
  Claim C5 says that for every integer key, negative ones included, \<open>Shift.apply\<close> emits
  a letter in the range A to Z for every letter. The code computes \<open>(code + key) % 26\<close>,
  and \<open>%\<close> keeps the sign of a negative sum: with key \<open>-3\<close> the letter A becomes the
  character with code 62.
\<close>

theorem ShiftNode_apply_negative_key:
  "ShiftNode_apply ''A'' (- 3) = ''>''"
  by code_simp

lemma nth_ShiftNode_apply:
  "i < length input \<Longrightarrow> ShiftNode_apply input k ! i = shift_char k (upper_char (input ! i))"
  by (simp add: ShiftNode_apply_def toUpperCase_def)

lemma nth_MultiplyNode_apply:
  "i < length input \<Longrightarrow> MultiplyNode_apply input mk ! i = multiply_char mk (upper_char (input ! i))"
  by (simp add: MultiplyNode_apply_def toUpperCase_def)

lemma ShiftNode_apply_not_lower: "c \<in> set (ShiftNode_apply input k) \<Longrightarrow> \<not> is_lower c"
  using shift_char_not_lower toUpperCase_not_lower by (auto simp: ShiftNode_apply_def)

lemma MultiplyNode_apply_not_lower: "c \<in> set (MultiplyNode_apply input mk) \<Longrightarrow> \<not> is_lower c"
  using multiply_char_not_lower toUpperCase_not_lower by (auto simp: MultiplyNode_apply_def)

lemma PolygonNode_apply_not_lower: "c \<in> set (PolygonNode_apply node input) \<Longrightarrow> \<not> is_lower c"
  unfolding PolygonNode_apply_chars Let_def
  using multiply_char_not_lower shift_char_not_lower toUpperCase_not_lower
  by (auto split: if_splits)

lemma PolygonNode_apply_length: "length (PolygonNode_apply node input) = length input"
  unfolding PolygonNode_apply_chars Let_def by (simp add: toUpperCase_def)

lemma ShiftNode_apply_upper: "ShiftNode_apply (toUpperCase input) k = ShiftNode_apply input k"
  by (simp add: ShiftNode_apply_def toUpperCase_idem)

lemma MultiplyNode_apply_upper: "MultiplyNode_apply (toUpperCase input) mk = MultiplyNode_apply input mk"
  by (simp add: MultiplyNode_apply_def toUpperCase_idem)

lemma PolygonNode_apply_upper: "PolygonNode_apply node (toUpperCase input) = PolygonNode_apply node input"
  unfolding PolygonNode_apply_chars by (simp add: toUpperCase_idem)

lemma PolygonNode_new_apply_letter:
  assumes "i < length input" "is_lower (input ! i) \<or> test_AZ (input ! i)"
  shows "test_AZ (PolygonNode_apply (PolygonNode_new vs) input ! i)"
proof -
  define k where "k = (if int (length vs) mod 26 = 0 then 3 else int (length vs) mod 26)"
  have k0: "0 \<le> k" by (simp add: k_def)
  have up: "test_AZ (upper_char (input ! i))"
    using assms(2) upper_char_lower_AZ [of "input ! i"] upper_char_id [of "input ! i"]
    by (cases "is_lower (input ! i)") auto
  have sh: "test_AZ (shift_char k (upper_char (input ! i)))"
    by (rule shift_char_nonneg(1) [OF k0 up])
  have sv: "0 \<le> \<lfloor>sideVariance (PolygonNode_new vs) * 2\<rfloor>"
    using calculateSideVariance_nonneg [of vs] by (simp add: PolygonNode_new_def)
  define m where "m = validKeys ! (nat \<lfloor>sideVariance (PolygonNode_new vs) * 2\<rfloor> mod 12)"
  have m0: "0 \<le> m"
    unfolding m_def by (rule validKeys_nonneg, rule validKeys_nth_member) simp
  have mu: "test_AZ (multiply_char (Some m) (shift_char k (upper_char (input ! i))))"
    by (rule multiply_char_nonneg(1) [OF m0 sh])
  show ?thesis
    unfolding PolygonNode_apply_chars Let_def
    using assms(1) sh mu validKeys_index [OF sv]
    by (auto simp: toUpperCase_def PolygonNode_new_def k_def m_def split: if_splits)
qed


text \<open>
  With a non-negative key the sum \<open>code + key\<close> is never negative and \<open>Shift.apply\<close> does
  what the claim says: a letter becomes the uppercase letter at position
  \<open>(code + key mod 26) mod 26\<close>, and any other character passes through unchanged.
\<close>

lemma ShiftNode_apply_nonneg_key:
  assumes "0 \<le> k" "i < length input"
  shows "test_AZ (upper_char (input ! i)) \<Longrightarrow>
           test_AZ (ShiftNode_apply input k ! i) \<and>
           charCodeAt (ShiftNode_apply input k ! i) - 65
             = (charCodeAt (upper_char (input ! i)) - 65 + k mod 26) mod 26"
    and "\<not> test_AZ (upper_char (input ! i)) \<Longrightarrow> ShiftNode_apply input k ! i = input ! i"
proof -
  note nth = nth_ShiftNode_apply [OF assms(2), of k]
  show "test_AZ (ShiftNode_apply input k ! i) \<and>
        charCodeAt (ShiftNode_apply input k ! i) - 65
          = (charCodeAt (upper_char (input ! i)) - 65 + k mod 26) mod 26"
    if up: "test_AZ (upper_char (input ! i))"
    using shift_char_nonneg [OF assms(1) up] nth by (simp add: mod_simps)
  show "ShiftNode_apply input k ! i = input ! i" if no: "\<not> test_AZ (upper_char (input ! i))"
  proof -
    have "\<not> is_lower (input ! i)"
      using no upper_char_lower_AZ by blast
    then have "upper_char (input ! i) = input ! i"
      by (rule upper_char_id)
    then show ?thesis
      using no nth by (simp add: shift_char_def)
  qed
qed

subsection \<open>The input is uppercased first\<close>

text \<open>
  Claim C10 says that \<open>Shift.apply\<close>, \<open>Multiply.apply\<close> and \<open>PolygonNode.apply\<close> uppercase
  the input first, so that a lowercase letter is transformed into an uppercase cipher
  letter and the output never contains a lowercase letter. \<open>Shift.apply\<close> with key \<open>-3\<close>
  uppercases the letter a and then computes \<open>(0 + -3) % 26 = -3\<close>: the output is the
  character with code 62, which is no letter. This is the sign-preserving remainder of
  claim C5 again, met on a lowercase input.
\<close>

theorem ShiftNode_apply_lowercase_negative_key:
  "is_lower (CHR ''a'') \<and> ShiftNode_apply ''a'' (- 3) = ''>'' \<and> \<not> test_AZ (CHR ''>'')"
  by code_simp

text \<open>
  What the three methods do for every key: the result on the uppercased input is the
  result on the input, the output never contains a lowercase letter, and a lowercase
  letter of the input does not pass through unchanged but is transformed as its
  uppercase letter is. The transformed character is an uppercase letter for a polygon
  node, for a Shift with a non-negative key and for a Multiply with a non-negative key.
\<close>

lemma apply_uppercases_input:
  "ShiftNode_apply (toUpperCase input) k = ShiftNode_apply input k \<and>
   MultiplyNode_apply (toUpperCase input) mk = MultiplyNode_apply input mk \<and>
   PolygonNode_apply node (toUpperCase input) = PolygonNode_apply node input \<and>
   (\<forall>c \<in> set (ShiftNode_apply input k). \<not> is_lower c) \<and>
   (\<forall>c \<in> set (MultiplyNode_apply input mk). \<not> is_lower c) \<and>
   (\<forall>c \<in> set (PolygonNode_apply node input). \<not> is_lower c) \<and>
   (\<forall>i < length input. is_lower (input ! i) \<longrightarrow>
      test_AZ (upper_char (input ! i)) \<and>
      ShiftNode_apply input k ! i = shift_char k (upper_char (input ! i)) \<and>
      MultiplyNode_apply input mk ! i = multiply_char mk (upper_char (input ! i)) \<and>
      ShiftNode_apply input k ! i \<noteq> input ! i \<and>
      MultiplyNode_apply input mk ! i \<noteq> input ! i \<and>
      PolygonNode_apply node input ! i \<noteq> input ! i \<and>
      (0 \<le> k \<longrightarrow> test_AZ (ShiftNode_apply input k ! i)) \<and>
      (\<forall>m. mk = Some m \<and> 0 \<le> m \<longrightarrow> test_AZ (MultiplyNode_apply input mk ! i)) \<and>
      test_AZ (PolygonNode_apply (PolygonNode_new vs) input ! i))"
proof -
  have a: "\<forall>c \<in> set (ShiftNode_apply input k). \<not> is_lower c"
    using ShiftNode_apply_not_lower by blast
  have b: "\<forall>c \<in> set (MultiplyNode_apply input mk). \<not> is_lower c"
    using MultiplyNode_apply_not_lower by blast
  have c: "\<forall>c \<in> set (PolygonNode_apply node input). \<not> is_lower c"
    using PolygonNode_apply_not_lower by blast
  have idx: "\<forall>i < length input. is_lower (input ! i) \<longrightarrow>
      test_AZ (upper_char (input ! i)) \<and>
      ShiftNode_apply input k ! i = shift_char k (upper_char (input ! i)) \<and>
      MultiplyNode_apply input mk ! i = multiply_char mk (upper_char (input ! i)) \<and>
      ShiftNode_apply input k ! i \<noteq> input ! i \<and>
      MultiplyNode_apply input mk ! i \<noteq> input ! i \<and>
      PolygonNode_apply node input ! i \<noteq> input ! i \<and>
      (0 \<le> k \<longrightarrow> test_AZ (ShiftNode_apply input k ! i)) \<and>
      (\<forall>m. mk = Some m \<and> 0 \<le> m \<longrightarrow> test_AZ (MultiplyNode_apply input mk ! i)) \<and>
      test_AZ (PolygonNode_apply (PolygonNode_new vs) input ! i)"
  proof (intro allI impI)
    fix i
    assume i: "i < length input" and low: "is_lower (input ! i)"
    have up: "test_AZ (upper_char (input ! i))"
      by (rule upper_char_lower_AZ [OF low])
    have s: "ShiftNode_apply input k ! i = shift_char k (upper_char (input ! i))"
      by (rule nth_ShiftNode_apply [OF i])
    have m: "MultiplyNode_apply input mk ! i = multiply_char mk (upper_char (input ! i))"
      by (rule nth_MultiplyNode_apply [OF i])
    have "ShiftNode_apply input k ! i \<in> set (ShiftNode_apply input k)"
      using i by (simp add: ShiftNode_apply_def toUpperCase_def)
    then have s_ne: "ShiftNode_apply input k ! i \<noteq> input ! i"
      using a low by metis
    have "MultiplyNode_apply input mk ! i \<in> set (MultiplyNode_apply input mk)"
      using i by (simp add: MultiplyNode_apply_def toUpperCase_def)
    then have m_ne: "MultiplyNode_apply input mk ! i \<noteq> input ! i"
      using b low by metis
    have "PolygonNode_apply node input ! i \<in> set (PolygonNode_apply node input)"
      using i by (simp add: PolygonNode_apply_length)
    then have p_ne: "PolygonNode_apply node input ! i \<noteq> input ! i"
      using c low by metis
    have s_AZ: "0 \<le> k \<longrightarrow> test_AZ (ShiftNode_apply input k ! i)"
      using shift_char_nonneg(1) [OF _ up] s by simp
    have m_AZ: "\<forall>m. mk = Some m \<and> 0 \<le> m \<longrightarrow> test_AZ (MultiplyNode_apply input mk ! i)"
      using multiply_char_nonneg(1) [OF _ up] m by auto
    have p_AZ: "test_AZ (PolygonNode_apply (PolygonNode_new vs) input ! i)"
      using PolygonNode_new_apply_letter [OF i] low by simp
    from up s m s_ne m_ne p_ne s_AZ m_AZ p_AZ
    show "test_AZ (upper_char (input ! i)) \<and>
      ShiftNode_apply input k ! i = shift_char k (upper_char (input ! i)) \<and>
      MultiplyNode_apply input mk ! i = multiply_char mk (upper_char (input ! i)) \<and>
      ShiftNode_apply input k ! i \<noteq> input ! i \<and>
      MultiplyNode_apply input mk ! i \<noteq> input ! i \<and>
      PolygonNode_apply node input ! i \<noteq> input ! i \<and>
      (0 \<le> k \<longrightarrow> test_AZ (ShiftNode_apply input k ! i)) \<and>
      (\<forall>m. mk = Some m \<and> 0 \<le> m \<longrightarrow> test_AZ (MultiplyNode_apply input mk ! i)) \<and>
      test_AZ (PolygonNode_apply (PolygonNode_new vs) input ! i)"
      by (intro conjI)
  qed
  from ShiftNode_apply_upper [of input k] MultiplyNode_apply_upper [of input mk]
    PolygonNode_apply_upper [of node input] a b c idx
  show ?thesis
    by (intro conjI)
qed

lemma apply_uppercases_input_witness:
  "is_lower (''aB c'' ! 0) \<and>
   ShiftNode_apply ''aB c'' 3 = ''DE F'' \<and>
   MultiplyNode_apply ''aB c'' (Some 5) = ''AF K'' \<and>
   PolygonNode_apply (PolygonNode_new []) ''aB c'' = ''DE F'' \<and>
   ShiftNode_apply ''aB c'' 3 ! 0 \<noteq> ''aB c'' ! 0 \<and>
   test_AZ (ShiftNode_apply ''aB c'' 3 ! 0) \<and>
   test_AZ (MultiplyNode_apply ''aB c'' (Some 5) ! 0) \<and>
   test_AZ (PolygonNode_apply (PolygonNode_new []) ''aB c'' ! 0)"
proof -
  have low: "is_lower (''aB c'' ! 0)"
    by code_simp
  have len: "0 < length ''aB c''"
    by simp
  have s: "ShiftNode_apply ''aB c'' 3 = ''DE F''"
    by code_simp
  have m: "MultiplyNode_apply ''aB c'' (Some 5) = ''AF K''"
    by code_simp
  have p: "PolygonNode_apply (PolygonNode_new []) ''aB c'' = ''DE F''"
    unfolding PolygonNode_apply_chars Let_def
    using s by (simp add: PolygonNode_new_def isConvex_def ShiftNode_apply_def)
  note at0 = apply_uppercases_input [of "''aB c''" 3 "Some 5" "PolygonNode_new []" "[]",
      THEN conjunct2, THEN conjunct2, THEN conjunct2, THEN conjunct2, THEN conjunct2,
      THEN conjunct2, rule_format, OF len low]
  have k3: "0 \<le> (3::int)"
    by simp
  have k5: "Some (5::int) = Some 5 \<and> 0 \<le> (5::int)"
    by simp
  from at0 k3 k5 have
    "ShiftNode_apply ''aB c'' 3 ! 0 \<noteq> ''aB c'' ! 0 \<and>
     test_AZ (ShiftNode_apply ''aB c'' 3 ! 0) \<and>
     test_AZ (MultiplyNode_apply ''aB c'' (Some 5) ! 0) \<and>
     test_AZ (PolygonNode_apply (PolygonNode_new []) ''aB c'' ! 0)"
    by blast
  with low s m p show ?thesis
    by blast
qed

subsection \<open>The key of a Multiply node\<close>

lemma validKeys_gcd: "list_all (\<lambda>v. gcd v 26 = 1) validKeys"
  by code_simp

lemma validKeys_coprime: "v \<in> set validKeys \<Longrightarrow> coprime v 26"
  using validKeys_gcd by (simp add: list_all_iff coprime_iff_gcd_eq_1)

lemma residue_coprime:
  assumes "v mod 26 \<in> set validKeys"
  shows "coprime (v::int) 26"
  using validKeys_coprime [OF assms] by (simp add: coprime_mod_left_iff)

lemma validKeys_residue: "v \<in> set validKeys \<Longrightarrow> v mod 26 \<in> set validKeys"
  by (auto simp: validKeys_def)

lemma MultiplyNode_validateKey_valid:
  "0 \<le> k \<Longrightarrow> k mod 26 \<in> set validKeys \<Longrightarrow> MultiplyNode_validateKey this k = this"
  by (simp add: MultiplyNode_validateKey_def js_rem_nonneg)

lemma MultiplyNode_validateKey_invalid:
  "0 \<le> k \<Longrightarrow> k mod 26 \<notin> set validKeys \<Longrightarrow>
     MultiplyNode_validateKey this k = this\<lparr>key := Some (validKeys ! (nat k mod 12))\<rparr>"
  using validKeys_index [of k]
  by (simp add: MultiplyNode_validateKey_def js_rem_nonneg validKeys_def)

text \<open>
  Claim C4 says that the key a Multiply node stores is always a member of the set
  \<open>{1,3,5,7,9,11,15,17,19,21,23,25}\<close>. The constructor stores a key whose remainder is
  in the set as it is given: \<open>Multiply(27)\<close> stores 27, which is coprime to 26 and not a
  member of the set.
\<close>

theorem MultiplyNode_stored_key_counterexample:
  "key (MultiplyNode_new 27) = Some 27 \<and> 27 \<notin> set validKeys"
  by (simp add: MultiplyNode_new_def MultiplyNode_validateKey_def js_rem_def validKeys_def)

text \<open>
  For a negative key both remainders are negative, the test fails and the lookup
  \<open>validKeys[key % 12]\<close> is \<open>undefined\<close>.
\<close>

lemma MultiplyNode_new_negative_key: "key (MultiplyNode_new (- 1)) = None"
  by (simp add: MultiplyNode_new_def MultiplyNode_validateKey_def js_rem_def validKeys_def js_index_def)

text \<open>
  Claim C4, amended. For every non-negative integer key, the key stored after
  construction has a residue mod 26 in the coprime set, so it is coprime to 26: it is
  the supplied key when that key's residue is in the set, and otherwise the member of
  the set at index \<open>key mod 12\<close>. \<open>setKey\<close> with a non-negative key keeps this property of
  the stored key. \<open>Multiply(13)\<close> stores 3.
\<close>

theorem MultiplyNode_key_coprime:
  "0 \<le> k \<Longrightarrow>
     (\<exists>v. key (MultiplyNode_new k) = Some v \<and> v mod 26 \<in> set validKeys \<and> coprime v 26 \<and>
          (if k mod 26 \<in> set validKeys then v = k
           else v = validKeys ! (nat k mod 12) \<and> v \<in> set validKeys)) \<and>
     (\<forall>this v0. key this = Some v0 \<and> v0 mod 26 \<in> set validKeys \<longrightarrow>
        (\<exists>v. key (MultiplyNode_setKey this k) = Some v \<and> v mod 26 \<in> set validKeys \<and>
             coprime v 26 \<and>
             (if k mod 26 \<in> set validKeys then v = v0
              else v = validKeys ! (nat k mod 12) \<and> v \<in> set validKeys))) \<and>
     key (MultiplyNode_new 13) = Some 3"
proof -
  assume k: "0 \<le> k"
  have fb: "validKeys ! (nat k mod 12) \<in> set validKeys"
    by (rule validKeys_nth_member) simp
  have new: "\<exists>v. key (MultiplyNode_new k) = Some v \<and> v mod 26 \<in> set validKeys \<and> coprime v 26 \<and>
          (if k mod 26 \<in> set validKeys then v = k
           else v = validKeys ! (nat k mod 12) \<and> v \<in> set validKeys)"
  proof (cases "k mod 26 \<in> set validKeys")
    case True
    then show ?thesis
      using MultiplyNode_validateKey_valid [OF k True] residue_coprime [OF True]
      by (simp add: MultiplyNode_new_def)
  next
    case False
    then show ?thesis
      using MultiplyNode_validateKey_invalid [OF k False] fb validKeys_residue [OF fb]
        validKeys_coprime [OF fb]
      by (simp add: MultiplyNode_new_def)
  qed
  have set: "\<exists>v. key (MultiplyNode_setKey this k) = Some v \<and> v mod 26 \<in> set validKeys \<and>
             coprime v 26 \<and>
             (if k mod 26 \<in> set validKeys then v = v0
              else v = validKeys ! (nat k mod 12) \<and> v \<in> set validKeys)"
    if inv: "key this = Some v0 \<and> v0 mod 26 \<in> set validKeys" for this v0
  proof (cases "k mod 26 \<in> set validKeys")
    case True
    then show ?thesis
      using MultiplyNode_validateKey_valid [OF k True] inv residue_coprime [of v0]
      by (simp add: MultiplyNode_setKey_def)
  next
    case False
    then show ?thesis
      using MultiplyNode_validateKey_invalid [OF k False] fb validKeys_residue [OF fb]
        validKeys_coprime [OF fb]
      by (simp add: MultiplyNode_setKey_def)
  qed
  have thirteen: "key (MultiplyNode_new 13) = Some 3"
    by (simp add: MultiplyNode_new_def MultiplyNode_validateKey_def js_rem_def validKeys_def
        js_index_def)
  show ?thesis
    using new set thirteen by blast
qed

theorem MultiplyNode_key_coprime_witness:
  "(0::int) \<le> 14 \<and> key (MultiplyNode_new 14) = Some 5 \<and> coprime (5::int) 26 \<and>
   key (MultiplyNode_setKey (MultiplyNode_new 31) 14) = Some 5"
proof -
  have k: "(0::int) \<le> 14" by simp
  have n: "key (MultiplyNode_new 14) = Some 5"
    by (simp add: MultiplyNode_new_def MultiplyNode_validateKey_def js_rem_def validKeys_def
        js_index_def)
  have s: "key (MultiplyNode_setKey (MultiplyNode_new 31) 14) = Some 5"
    by (simp add: MultiplyNode_new_def MultiplyNode_setKey_def MultiplyNode_validateKey_def
        js_rem_def validKeys_def js_index_def)
  have "\<exists>v. key (MultiplyNode_new 14) = Some v \<and> v mod 26 \<in> set validKeys \<and> coprime v 26 \<and>
          (if (14::int) mod 26 \<in> set validKeys then v = 14
           else v = validKeys ! (nat 14 mod 12) \<and> v \<in> set validKeys)"
    using MultiplyNode_key_coprime [OF k] by blast
  then have "coprime (5::int) 26"
    using n by auto
  then show ?thesis using k n s by simp
qed

subsection \<open>setKey on a Multiply node\<close>

text \<open>
  Claim C9 says that \<open>setKey(k)\<close> leaves the stored key unchanged for every integer \<open>k\<close>
  whose residue mod 26 is in the coprime set. The residue of \<open>-1\<close> is 25, but the code
  tests \<open>-1 % 26 = -1\<close>, takes the correction branch and stores \<open>validKeys[-1]\<close>, which
  is \<open>undefined\<close>: the key of the node changes from 5 to \<open>undefined\<close>.
\<close>

theorem MultiplyNode_setKey_negative_key:
  "(- 1 :: int) mod 26 \<in> set validKeys \<and>
   key (MultiplyNode_new 5) = Some 5 \<and>
   key (MultiplyNode_setKey (MultiplyNode_new 5) (- 1)) = None"
  by (simp add: MultiplyNode_new_def MultiplyNode_setKey_def MultiplyNode_validateKey_def
      js_rem_def validKeys_def js_index_def)

text \<open>
  Whenever the code's own test \<open>key % 26\<close> finds the remainder in the set, \<open>setKey(k)\<close>
  leaves the node unchanged and the key does not become \<open>k\<close>. These are the
  non-negative \<open>k\<close> whose residue mod 26 is in the set: for them the behaviour is the one
  the claim describes.
\<close>

lemma MultiplyNode_setKey_valid_remainder:
  "js_rem k 26 \<in> set validKeys \<Longrightarrow> MultiplyNode_setKey this k = this"
  by (simp add: MultiplyNode_setKey_def MultiplyNode_validateKey_def)

lemma valid_remainder_iff:
  "js_rem k 26 \<in> set validKeys \<longleftrightarrow> 0 \<le> k \<and> k mod 26 \<in> set validKeys"
proof (cases "0 \<le> k")
  case True
  then show ?thesis by (simp add: js_rem_nonneg)
next
  case False
  then have "js_rem k 26 \<le> 0"
    by (simp add: js_rem_def sgn_if)
  then have "js_rem k 26 \<notin> set validKeys"
    using validKeys_nonneg [of "js_rem k 26"] by (auto simp: validKeys_def)
  with False show ?thesis by simp
qed

lemma MultiplyNode_setKey_ignores_valid_key:
  "0 \<le> k \<Longrightarrow> k mod 26 \<in> set validKeys \<Longrightarrow> MultiplyNode_setKey this k = this"
  by (simp add: MultiplyNode_setKey_def MultiplyNode_validateKey_valid)

lemma MultiplyNode_setKey_ignores_valid_key_witness:
  "(0::int) \<le> 7 \<and> (7::int) mod 26 \<in> set validKeys \<and>
   key (MultiplyNode_setKey (MultiplyNode_new 5) 7) = Some 5"
proof -
  have k: "(0::int) \<le> 7" by simp
  have v: "(7::int) mod 26 \<in> set validKeys" by (simp add: validKeys_def)
  have n: "key (MultiplyNode_new 5) = Some 5"
    by (simp add: MultiplyNode_new_def MultiplyNode_validateKey_def js_rem_def validKeys_def)
  show ?thesis
    using MultiplyNode_setKey_ignores_valid_key [OF k v, of "MultiplyNode_new 5"] k v n by simp
qed

subsection \<open>Removing a node\<close>

lemma splice_beyond: "int (length xs) \<le> start \<Longrightarrow> splice xs start 1 = xs"
  by (simp add: splice_def Let_def min_def)

text \<open>
  Claim C7 says that \<open>removeNode(index)\<close> is a no-op for every out-of-range index,
  negative ones included. \<open>splice\<close> counts a negative index from the end:
  \<open>removeNode(-1)\<close> removes the last node.
\<close>

theorem removeNode_negative_index_counterexample:
  "\<not> (0 \<le> (- 1 :: int) \<and> - 1 < pipeline_length \<lparr>nodes = [ShiftNode_new 3]\<rparr>) \<and>
   nodes (removeNode \<lparr>nodes = [ShiftNode_new 3]\<rparr> (- 1)) = [] \<and>
   nodes (removeNode \<lparr>nodes = [ShiftNode_new 3]\<rparr> (- 1)) \<noteq> nodes \<lparr>nodes = [ShiftNode_new 3]\<rparr>"
  by (simp add: removeNode_def splice_def pipeline_length_def)

text \<open>
  Claim C7, amended. \<open>removeNode(index)\<close> is a no-op for every index at or beyond the
  length of the node list, and the guarded caller \<open>removeNodeByIndex(index)\<close> is a no-op
  for every out-of-range index, negative ones included.
\<close>

theorem removeNode_out_of_range:
  "(pipeline_length p \<le> index \<longrightarrow> removeNode p index = p) \<and>
   (index < 0 \<or> pipeline_length p \<le> index \<longrightarrow> removeNodeByIndex p index = p)"
  by (auto simp: removeNode_def removeNodeByIndex_def pipeline_length_def splice_beyond)

theorem removeNode_out_of_range_witness:
  "pipeline_length \<lparr>nodes = [ShiftNode_new 3]\<rparr> \<le> 1 \<and>
   removeNode \<lparr>nodes = [ShiftNode_new 3]\<rparr> 1 = \<lparr>nodes = [ShiftNode_new 3]\<rparr> \<and>
   removeNodeByIndex \<lparr>nodes = [ShiftNode_new 3]\<rparr> (- 1) = \<lparr>nodes = [ShiftNode_new 3]\<rparr>"
proof -
  have r: "pipeline_length \<lparr>nodes = [ShiftNode_new 3]\<rparr> \<le> 1"
    by (simp add: pipeline_length_def)
  show ?thesis
    using removeNode_out_of_range [of "\<lparr>nodes = [ShiftNode_new 3]\<rparr>" 1]
      removeNode_out_of_range [of "\<lparr>nodes = [ShiftNode_new 3]\<rparr>" "- 1"] r
    by simp
qed

section \<open>Polygon validation\<close>

lemma upt_0_3: "[0..<3] = [0, 1, 2]"
  by (simp add: upt_rec)

lemma upt_1_3: "[Suc 0..<3] = [1, 2]"
  by (simp add: upt_rec)

lemma sqrt_less_15: "sqrt x < 15 \<longleftrightarrow> x < 225"
proof -
  have "sqrt 225 = 15" by (rule real_sqrt_unique) simp_all
  then show ?thesis by (metis real_sqrt_less_iff)
qed

lemma example_square_area: "polygonArea example_square = 100"
  by (simp add: polygonArea_def example_square_def upt_0_4 Let_def)

lemma example_square_too_close: "too_close example_square"
  by (simp add: too_close_def example_square_def upt_0_4 distance_def minDist_def sqrt_less_15 upt_rec)

lemma example_triangle_area: "polygonArea example_triangle = 100"
  by (simp add: polygonArea_def example_triangle_def upt_0_3 Let_def)

lemma example_triangle_not_too_close: "\<not> too_close example_triangle"
  by (simp add: too_close_def example_triangle_def upt_0_3 upt_1_3 distance_def minDist_def sqrt_less_15 upt_rec)

text \<open>
  Claim C3 says that for the square with vertices (0,0), (10,0), (10,10), (0,10)
  \<open>polygonArea\<close> is exactly 100 and \<open>validatePolygon\<close> returns valid. The area is 100, but
  adjacent vertices of this square are 10 apart, and \<open>validatePolygon\<close> rejects any two
  vertices closer than 15 before it looks at the area.
\<close>

theorem validatePolygon_square_counterexample:
  "\<not> valid (validatePolygon example_square)"
  using example_square_too_close
  by (simp add: validatePolygon_def example_square_def)

text \<open>
  Claim C3, amended. For that square \<open>polygonArea\<close> returns exactly 100 and
  \<open>validatePolygon\<close> returns invalid with the error "Vertices too close together". The
  area minimum of 100 is boundary-inclusive: the triangle (0,0), (40,0), (20,5), whose
  vertices are at least 15 apart and whose area is exactly 100, is valid.
\<close>

theorem validatePolygon_area_boundary:
  "polygonArea example_square = 100 \<and>
   validatePolygon example_square =
     \<lparr>valid = False, error = ''Vertices too close together'', sides = 0\<rparr> \<and>
   polygonArea example_triangle = 100 \<and>
   validatePolygon example_triangle = \<lparr>valid = True, error = [], sides = 3\<rparr>"
proof -
  have sq: "validatePolygon example_square =
     \<lparr>valid = False, error = ''Vertices too close together'', sides = 0\<rparr>"
    using example_square_too_close
    by (simp add: validatePolygon_def example_square_def)
  have tr: "validatePolygon example_triangle = \<lparr>valid = True, error = [], sides = 3\<rparr>"
    using example_triangle_not_too_close example_triangle_area
    by (simp add: validatePolygon_def example_triangle_def)
  show ?thesis
    using example_square_area sq example_triangle_area tr by simp
qed

section \<open>The attack simulator\<close>

lemma fold_keySpace:
  "fold (\<lambda>node total. total * bruteForce_keySpace node) ns a
     = a * prod_list (map spec_multiplicity ns)"
proof (induction ns arbitrary: a)
  case Nil
  show ?case by simp
next
  case (Cons n ns)
  have "bruteForce_keySpace n = spec_multiplicity n"
    by (simp add: bruteForce_keySpace_def spec_multiplicity_def)
  then show ?case by (simp add: Cons.IH mult.assoc)
qed

lemma bruteForceAttack_combinations:
  "combinations (bruteForceAttack pipeline) = spec_totalCombinations pipeline"
  by (simp add: bruteForceAttack_def Let_def fold_keySpace spec_totalCombinations_def)

lemma bruteForceAttack_penalty:
  "penalty (bruteForceAttack pipeline)
     = spec_bruteForce_penalty (real (spec_totalCombinations pipeline) / 1000000)"
  by (simp add: bruteForceAttack_def Let_def fold_keySpace spec_totalCombinations_def
      spec_bruteForce_penalty_def testRate_def)

text \<open>
  Claim C6. The brute-force attack takes the product over the nodes of the per-node
  multiplicity (Shift 26, Multiply 12, Reverse 2, any other type 2; 1 for the empty
  pipeline), divides it by 1,000,000 tests per second and assigns the penalty by time
  bucket: under 1 second 40, under 60 seconds 30, under 60 minutes 15, under 24 hours 5,
  otherwise 0. \<open>runAttacks\<close> returns \<open>totalPenalty\<close> as the sum of the frequency-analysis
  and brute-force penalties capped at 50, and \<open>showAnimation\<close> is true exactly when
  \<open>totalPenalty\<close> is positive.
\<close>

theorem runAttacks_penalties:
  "combinations (bruteForceAttack pipeline) = spec_totalCombinations pipeline \<and>
   spec_totalCombinations \<lparr>nodes = []\<rparr> = 1 \<and>
   penalty (bruteForceAttack pipeline)
     = spec_bruteForce_penalty (real (spec_totalCombinations pipeline) / 1000000) \<and>
   totalPenalty (runAttacks plaintext ciphertext pipeline)
     = min 50 (penalty (frequencyAnalysisAttack ciphertext) + penalty (bruteForceAttack pipeline)) \<and>
   showAnimation (runAttacks plaintext ciphertext pipeline)
     = (totalPenalty (runAttacks plaintext ciphertext pipeline) > 0)"
proof -
  have t: "totalPenalty (runAttacks plaintext ciphertext pipeline)
     = min 50 (penalty (frequencyAnalysisAttack ciphertext) + penalty (bruteForceAttack pipeline))"
    by (simp add: runAttacks_def Let_def)
  have s: "showAnimation (runAttacks plaintext ciphertext pipeline)
     = (totalPenalty (runAttacks plaintext ciphertext pipeline) > 0)"
    by (simp add: runAttacks_def Let_def)
  have e: "spec_totalCombinations \<lparr>nodes = []\<rparr> = 1"
    by (simp add: spec_totalCombinations_def)
  show ?thesis
    using bruteForceAttack_combinations [of pipeline] bruteForceAttack_penalty [of pipeline] t s e
    by simp
qed



lemma frequencyAnalysisAttack_no_letters: "penalty (frequencyAnalysisAttack ''123'') = 0"
  by (simp add: frequencyAnalysisAttack_def test_AZ_def charCodeAt_def Let_def)

lemma example_pipeline_combinations:
  "spec_totalCombinations \<lparr>nodes = [ShiftNode_new 3, MultiplyNode_new 5, ReverseNode_new]\<rparr> = 624"
  by (simp add: spec_totalCombinations_def spec_multiplicity_def ShiftNode_new_def
      MultiplyNode_new_def MultiplyNode_validateKey_def ReverseNode_new_def)

theorem runAttacks_penalties_witness:
  "combinations (bruteForceAttack \<lparr>nodes = [ShiftNode_new 3, MultiplyNode_new 5, ReverseNode_new]\<rparr>) = 624 \<and>
   penalty (bruteForceAttack \<lparr>nodes = [ShiftNode_new 3, MultiplyNode_new 5, ReverseNode_new]\<rparr>) = 40 \<and>
   totalPenalty (runAttacks ''123'' ''123''
      \<lparr>nodes = [ShiftNode_new 3, MultiplyNode_new 5, ReverseNode_new]\<rparr>) = 40 \<and>
   showAnimation (runAttacks ''123'' ''123''
      \<lparr>nodes = [ShiftNode_new 3, MultiplyNode_new 5, ReverseNode_new]\<rparr>)"
  using runAttacks_penalties [of "\<lparr>nodes = [ShiftNode_new 3, MultiplyNode_new 5, ReverseNode_new]\<rparr>"
      "''123''" "''123''"]
  by (simp add: example_pipeline_combinations frequencyAnalysisAttack_no_letters
      spec_bruteForce_penalty_def)

section \<open>The scoring engine\<close>

subsection \<open>The frequency table and the entropy\<close>

lemma bump_keys:
  "map fst (bump fs c) = (if c \<in> set (map fst fs) then map fst fs else map fst fs @ [c])"
  by (induction fs c rule: bump.induct) auto

lemma map_of_bump:
  "map_of (bump fs c) = (map_of fs)(c \<mapsto> (case map_of fs c of None \<Rightarrow> 1 | Some n \<Rightarrow> n + 1))"
  by (induction fs c rule: bump.induct) (auto simp: fun_eq_iff)

lemma count_frequencies_snoc:
  "count_frequencies (str @ [c]) = bump (count_frequencies str) c"
  by (simp add: count_frequencies_def)

lemma count_frequencies_keys:
  "distinct (map fst (count_frequencies str)) \<and> set (map fst (count_frequencies str)) = set str"
proof (induction str rule: rev_induct)
  case Nil
  show ?case by (simp add: count_frequencies_def)
next
  case (snoc c str)
  then show ?case
    by (auto simp: count_frequencies_snoc bump_keys)
qed

lemma map_of_count_frequencies:
  "map_of (count_frequencies str) c
     = (if c \<in> set str then Some (count_list str c) else None)"
proof (induction str rule: rev_induct)
  case Nil
  show ?case by (simp add: count_frequencies_def)
next
  case (snoc d str)
  then show ?case
    by (auto simp: count_frequencies_snoc map_of_bump)
qed

lemma sum_list_alist:
  "distinct (map fst fs) \<Longrightarrow>
     (\<Sum>(c, f) \<leftarrow> fs. g f) = (\<Sum>c \<in> set (map fst fs). g (the (map_of fs c)))"
proof (induction fs)
  case Nil
  show ?case by simp
next
  case (Cons a fs)
  obtain c f where a: "a = (c, f)" by (cases a)
  have notin: "c \<notin> fst ` set fs" and d: "distinct (map fst fs)"
    using Cons.prems a by auto
  have "(\<Sum>x \<in> fst ` set fs. g (the (if x = c then Some f else map_of fs x)))
          = (\<Sum>x \<in> fst ` set fs. g (the (map_of fs x)))"
    using notin by (intro sum.cong) auto
  then show ?case
    using Cons.IH [OF d] notin by (simp add: a)
qed

lemma sum_list_count_frequencies:
  "(\<Sum>(c, f) \<leftarrow> count_frequencies str. g f) = (\<Sum>c \<in> set str. g (count_list str c))"
proof -
  have "(\<Sum>(c, f) \<leftarrow> count_frequencies str. g f)
          = (\<Sum>c \<in> set str. g (the (map_of (count_frequencies str) c)))"
    using sum_list_alist [of "count_frequencies str" g] count_frequencies_keys [of str]
    by simp
  also have "\<dots> = (\<Sum>c \<in> set str. g (count_list str c))"
    by (intro sum.cong) (simp_all add: map_of_count_frequencies)
  finally show ?thesis .
qed

lemma foldl_minus:
  "foldl (\<lambda>entropy (c, f). entropy - h f) (a::real) fs = a - (\<Sum>(c, f) \<leftarrow> fs. h f)"
  by (induction fs arbitrary: a) (auto simp: algebra_simps)

lemma calculateEntropy_shannon: "calculateEntropy str = shannon_entropy str"
proof -
  define h where "h = (\<lambda>f::nat. (real f / real (length str)) * log 2 (real f / real (length str)))"
  have "calculateEntropy str = foldl (\<lambda>entropy (c, f). entropy - h f) 0 (count_frequencies str)"
    by (simp add: calculateEntropy_def Let_def h_def)
  also have "\<dots> = - (\<Sum>(c, f) \<leftarrow> count_frequencies str. h f)"
    by (simp add: foldl_minus)
  also have "\<dots> = - (\<Sum>c \<in> set str. h (count_list str c))"
    by (simp add: sum_list_count_frequencies)
  finally show ?thesis
    by (simp add: shannon_entropy_def h_def)
qed

subsection \<open>Diffusion\<close>

lemma fold_count:
  "fold (\<lambda>i changes. if P i then changes + 1 else changes) xs (a::nat) = a + length (filter P xs)"
  by (induction xs arbitrary: a) auto

lemma length_filter_upt: "length (filter P [0..<n]) = card {i. i < n \<and> P i}"
proof -
  have "length (filter P [0..<n]) = card {i. i < length [0..<n] \<and> P ([0..<n] ! i)}"
    by (rule length_filter_conv_card)
  also have "{i. i < length [0..<n] \<and> P ([0..<n] ! i)} = {i. i < n \<and> P i}"
    by auto
  finally show ?thesis .
qed

lemma calculateDiffusion_pctChanged:
  assumes "\<not> (plaintext = [] \<and> ciphertext = [])"
  shows "calculateDiffusion plaintext ciphertext = Some (pctChanged plaintext ciphertext)"
proof (cases "length plaintext \<noteq> length ciphertext")
  case True
  then show ?thesis
    by (simp add: calculateDiffusion_def pctChanged_def)
next
  case False
  then have "plaintext \<noteq> []" "ciphertext \<noteq> []"
    using assms by auto
  then show ?thesis
    using False
    by (simp add: calculateDiffusion_def pctChanged_def fold_count length_filter_upt Let_def)
qed

lemma calculateDiffusion_empty: "calculateDiffusion [] [] = None"
  by (simp add: calculateDiffusion_def)

subsection \<open>Key space\<close>

lemma fold_estimateKeySpace:
  "fold (\<lambda>node bits.
             if type node = ''shift'' then bits + log 2 26
             else if type node = ''multiply'' then bits + log 2 12
             else if type node = ''reverse'' then bits + 1
             else bits + 1) ns a
     = a + (\<Sum>node \<leftarrow> ns. log 2 (real (spec_multiplicity node)))"
proof (induction ns arbitrary: a)
  case Nil
  show ?case by simp
next
  case (Cons n ns)
  show ?case
    by (simp add: Cons.IH spec_multiplicity_def)
qed

lemma estimateKeySpace_sum:
  "estimateKeySpace pipeline = (\<Sum>node \<leftarrow> nodes pipeline. log 2 (real (spec_multiplicity node)))"
  by (simp add: estimateKeySpace_def fold_estimateKeySpace)

subsection \<open>Penalties\<close>

lemma penalise_Some:
  "penalise cond n (Some a, Some b)
     = (Some (a + (if cond then - n else 0)), Some (b + (if cond then - n else 0)))"
  by (simp add: penalise_def js_plus_def)

lemma penalise_chain:
  "penalise c5 n5 (penalise c4 n4 (penalise c3 n3 (penalise c2 n2
      (penalise c1 n1 (Some 0, Some s)))))
     = (Some ((if c1 then - n1 else 0) + (if c2 then - n2 else 0) + (if c3 then - n3 else 0)
               + (if c4 then - n4 else 0) + (if c5 then - n5 else 0)),
        Some (s + ((if c1 then - n1 else 0) + (if c2 then - n2 else 0) + (if c3 then - n3 else 0)
               + (if c4 then - n4 else 0) + (if c5 then - n5 else 0))))"
proof -
  define p1 where "p1 = (if c1 then - n1 else 0)"
  define p2 where "p2 = (if c2 then - n2 else 0)"
  define p3 where "p3 = (if c3 then - n3 else 0)"
  define p4 where "p4 = (if c4 then - n4 else 0)"
  define p5 where "p5 = (if c5 then - n5 else 0)"
  have "penalise c5 n5 (penalise c4 n4 (penalise c3 n3 (penalise c2 n2
      (penalise c1 n1 (Some 0, Some s)))))
     = (Some (0 + p1 + p2 + p3 + p4 + p5), Some (s + p1 + p2 + p3 + p4 + p5))"
    unfolding penalise_Some p1_def p2_def p3_def p4_def p5_def ..
  also have "\<dots> = (Some (p1 + p2 + p3 + p4 + p5), Some (s + (p1 + p2 + p3 + p4 + p5)))"
    by (simp only: add_0 add.assoc)
  finally show ?thesis
    unfolding p1_def p2_def p3_def p4_def p5_def .
qed

subsection \<open>The score breakdown\<close>

text \<open>
  Claim C2 gives the breakdown for every plaintext and ciphertext, with \<open>diffusion\<close> at
  most 12 and \<open>final\<close> clamped to the range from 0 to 100. For two empty strings
  \<open>calculateDiffusion\<close> divides 0 by 0: \<open>diffusion\<close> is \<open>NaN\<close>, the running score is
  \<open>NaN\<close> from there on, and \<open>Math.max(0, Math.min(100, NaN))\<close> is \<open>NaN\<close>. The code's
  own comments promise a "Percentage (0-100)" and a "Final score clamped to 0-100", and
  \<open>analyzeFrequencySkew\<close> beside it returns early on an empty table; \<open>calculateDiffusion\<close>
  misses that case.
\<close>

theorem evaluateCipher_empty_strings:
  "diffusion (evaluateCipher [] [] \<lparr>nodes = []\<rparr>) = None \<and>
   final (evaluateCipher [] [] \<lparr>nodes = []\<rparr>) = None"
proof -
  have d: "diffusion (evaluateCipher [] [] \<lparr>nodes = []\<rparr>) = None"
    by (simp add: evaluateCipher_def calculateDiffusion_empty Let_def js_times_def Math_min_def)
  have p: "snd (penalise c n (a, None)) = None" for c n a
    by (simp add: penalise_def js_plus_def)
  have s: "snd (penalise c n st) = None" if "snd st = None" for c n st
    using that p [of c n "fst st"] by (cases st) simp
  have f: "final (evaluateCipher [] [] \<lparr>nodes = []\<rparr>) = None"
    unfolding evaluateCipher_def Let_def calculateDiffusion_empty
    by (simp add: s js_times_def Math_min_def Math_max_def js_plus_def)
  show ?thesis using d f by simp
qed

text \<open>
  On every other input the code does what the claim says. For every plaintext and
  ciphertext that are not both empty, and every pipeline, \<open>evaluateCipher\<close> returns
  \<open>base = 60\<close>;
  \<open>entropy = min(20, max(0, H(ciphertext) - H(plaintext)) * 8)\<close> with \<open>H\<close> the Shannon
  entropy of the character distribution of the whole string;
  \<open>diffusion = min(12, pctChanged * 0.12)\<close> with \<open>pctChanged\<close> the percentage of same-index
  characters that differ, 50 when the lengths differ; \<open>keySpace\<close> the minimum of 8 and
  the sum over the nodes of \<open>log2\<close> of the multiplicity (Shift 26, Multiply 12, Reverse 2,
  any other type 2); \<open>penalties\<close> the sum of \<open>-25\<close> when the ciphertext equals the
  plaintext, \<open>-15\<close> when it is the reversed plaintext, \<open>-10\<close> when \<open>pctChanged\<close> is below
  30, \<open>-5\<close> when \<open>analyzeFrequencySkew(ciphertext)\<close> is below 20 and \<open>-40\<close> when the
  pipeline is empty; and \<open>final\<close> the sum of the five terms clamped to the range from 0
  to 100.
\<close>

lemma evaluateCipher_breakdown:
  "\<not> (plaintext = [] \<and> ciphertext = []) \<Longrightarrow>
     evaluateCipher plaintext ciphertext pipeline =
       \<lparr>base = Some 60,
        entropy = Some (spec_entropy plaintext ciphertext),
        diffusion = Some (spec_diffusion plaintext ciphertext),
        keySpace = Some (spec_keySpace pipeline),
        penalties = Some (spec_penalties plaintext ciphertext pipeline),
        final = Some (spec_final plaintext ciphertext pipeline)\<rparr>"
proof -
  assume ne: "\<not> (plaintext = [] \<and> ciphertext = [])"
  note d = calculateDiffusion_pctChanged [OF ne]
  have rev_eq: "(rev plaintext = ciphertext) = (ciphertext = rev plaintext)"
    by auto
  have id_eq: "(plaintext = ciphertext) = (ciphertext = plaintext)"
    by auto
  have empty_eq: "(length (nodes pipeline) = 0) = (nodes pipeline = [])"
    by simp
  have less: "js_less (Some (pctChanged plaintext ciphertext)) (Some 30)
                = (pctChanged plaintext ciphertext < 30)"
    by (simp add: js_less_def)
  have score3: "js_plus (js_plus (js_plus (Some 60) (Some (spec_entropy plaintext ciphertext)))
                  (Some (spec_diffusion plaintext ciphertext))) (Some (spec_keySpace pipeline))
      = Some (60 + spec_entropy plaintext ciphertext + spec_diffusion plaintext ciphertext
                + spec_keySpace pipeline)"
    by (simp add: js_plus_def)
  have dsc: "Math_min (Some 12) (js_times (Some (pctChanged plaintext ciphertext)) (Some (12 / 100)))
      = Some (spec_diffusion plaintext ciphertext)"
    by (simp add: Math_min_def js_times_def spec_diffusion_def)
  have ent: "min 20 (max 0 (shannon_entropy ciphertext - shannon_entropy plaintext) * 8)
      = spec_entropy plaintext ciphertext"
    by (simp add: spec_entropy_def)
  have ks: "min 8 (\<Sum>node \<leftarrow> nodes pipeline. log 2 (real (spec_multiplicity node)))
      = spec_keySpace pipeline"
    by (simp add: spec_keySpace_def)
  have pen: "(if ciphertext = plaintext then - 25 else 0)
     + (if ciphertext = rev plaintext then - 15 else 0)
     + (if pctChanged plaintext ciphertext < 30 then - 10 else 0)
     + (if analyzeFrequencySkew ciphertext < 20 then - 5 else 0)
     + (if nodes pipeline = [] then - 40 else 0) = spec_penalties plaintext ciphertext pipeline"
    by (simp only: spec_penalties_def)
  have fin: "Math_max (Some 0) (Math_min (Some 100)
        (Some (60 + spec_entropy plaintext ciphertext + spec_diffusion plaintext ciphertext
                + spec_keySpace pipeline + spec_penalties plaintext ciphertext pipeline)))
      = Some (spec_final plaintext ciphertext pipeline)"
    by (simp add: Math_max_def Math_min_def spec_final_def)
  show ?thesis
    unfolding evaluateCipher_def Let_def d calculateEntropy_shannon estimateKeySpace_sum
      isIdentical_def isSimpleReversal_def isEmpty_def rev_eq id_eq empty_eq less ent ks dsc
      score3 penalise_chain pen fst_conv snd_conv fin ..
qed


lemma example_entropy: "spec_entropy ''AB'' ''BA'' = 0"
proof -
  have "set ''BA'' = set ''AB''" by auto
  then have "shannon_entropy ''BA'' = shannon_entropy ''AB''"
    by (simp add: shannon_entropy_def)
  then show ?thesis by (simp add: spec_entropy_def)
qed

lemma example_pctChanged: "pctChanged ''AB'' ''BA'' = 100"
proof -
  have "{i. i < length ''AB'' \<and> ''AB'' ! i \<noteq> ''BA'' ! i} = {0, 1}"
    by (auto simp: nth_Cons' less_Suc_eq)
  then show ?thesis by (simp add: pctChanged_def)
qed

lemma example_skew: "analyzeFrequencySkew ''BA'' = 0"
  by (simp add: analyzeFrequencySkew_def count_frequencies_def test_AZ_def charCodeAt_def Let_def)

lemma example_keySpace: "spec_keySpace \<lparr>nodes = [ReverseNode_new]\<rparr> = 1"
  by (simp add: spec_keySpace_def spec_multiplicity_def ReverseNode_new_def)

lemma evaluateCipher_breakdown_witness:
  "\<not> (''AB'' = [] \<and> ''BA'' = []) \<and>
   evaluateCipher ''AB'' ''BA'' \<lparr>nodes = [ReverseNode_new]\<rparr> =
     \<lparr>base = Some 60, entropy = Some 0, diffusion = Some 12, keySpace = Some 1,
      penalties = Some (- 20), final = Some 53\<rparr>"
proof -
  have ne: "\<not> (''AB'' = [] \<and> ''BA'' = [])"
    by simp
  have d: "spec_diffusion ''AB'' ''BA'' = 12"
    by (simp add: spec_diffusion_def example_pctChanged)
  have p: "spec_penalties ''AB'' ''BA'' \<lparr>nodes = [ReverseNode_new]\<rparr> = - 20"
    by (simp add: spec_penalties_def example_pctChanged example_skew)
  have f: "spec_final ''AB'' ''BA'' \<lparr>nodes = [ReverseNode_new]\<rparr> = 53"
    by (simp add: spec_final_def example_entropy d example_keySpace p)
  show ?thesis
    using evaluateCipher_breakdown [OF ne, of "\<lparr>nodes = [ReverseNode_new]\<rparr>"]
    by (simp add: example_entropy d example_keySpace p f)
qed

end
